theory Spec2Isabelle
  imports Main
begin

section \<open>The process lifecycle supervisor of src/server.js\<close>

text \<open>
  The class \<open>MinecraftCrossplayServer\<close> keeps the supervisor's state in fields of one
  object and changes it from callbacks: the HTTP routes, the listeners registered on the
  child process, and timers. Every callback runs to completion on a single thread, so the
  model is a state record and one function per callback. What the callbacks do to the
  outside (spawning, writing to the child's standard input, sending a signal) is appended
  to a log of actions; the pending \<open>setTimeout\<close> timers and the running \<open>setInterval\<close>
  timers of the runtime are part of the state, with a clock in milliseconds.
  Console output, the file downloads, the static routes and the handlers of the host's
  SIGTERM and SIGINT (which call \<open>stopMinecraftServer\<close> and then end the control
  process) are left out. Strings are lists of bytes, so \<open>length\<close> is the source's
  \<open>command.length\<close> for ASCII text.
\<close>

subsection \<open>Data\<close>

datatype server_status = Offline | Starting | Online | Stopping

fun status_string :: "server_status \<Rightarrow> string" where
  "status_string Offline = ''offline''"
| "status_string Starting = ''starting''"
| "status_string Online = ''online''"
| "status_string Stopping = ''stopping''"

datatype signal = SIGTERM | SIGKILL

text \<open>
  Calls made on a child process, identified by the number of the spawn that created it:
  \<open>spawn\<close>, \<open>stdin.write(text)\<close> and \<open>kill(signal)\<close>.
\<close>

datatype action = Spawn nat | StdinWrite nat string | Kill nat signal

text \<open>
  The three callbacks given to \<open>setTimeout\<close>: the relaunch after a crash (30000 ms), the
  forced kill of \<open>stopMinecraftServer\<close> (15000 ms) and \<open>displayConnectionInfo\<close> (1000 ms).
\<close>

datatype timer = TRestart | TKill | TDisplayInfo

record manager =
  minecraftProcess :: "nat option"
  serverStatus :: server_status
  startTime :: "nat option"
  serverReady :: bool
  restartAttempts :: nat
  memoryMonitorInterval :: "nat option"
  now :: nat
  timers :: "(nat \<times> timer) list"
  intervals :: "nat list"
  nextInterval :: nat
  nextChild :: nat
  stdinWritable :: bool
  actions :: "action list"

text \<open>
  \<open>minecraftProcess\<close> to \<open>memoryMonitorInterval\<close> are the fields of the class. The rest is
  the runtime: \<open>now\<close> is \<open>Date.now()\<close>, \<open>timers\<close> the pending timeouts with the time at which
  each is due, \<open>intervals\<close> the intervals that have been set and not cleared,
  \<open>stdinWritable\<close> whether \<open>stdin.write\<close> on the current child returns (it throws otherwise).
\<close>

definition constructor :: "nat \<Rightarrow> manager" where
  "constructor t0 =
     \<lparr> minecraftProcess = None, serverStatus = Offline, startTime = None,
       serverReady = False, restartAttempts = 0, memoryMonitorInterval = None,
       now = t0, timers = [], intervals = [], nextInterval = 0, nextChild = 0,
       stdinWritable = True, actions = [] \<rparr>"

record reply =
  success :: bool
  message :: string
  reply_status :: "string option"

record status_reply =
  status :: string
  running :: bool
  ready :: bool
  uptime :: int

subsection \<open>Strings\<close>

text \<open>
  \<open>trim\<close> takes the ASCII white space off both ends, and \<open>str_includes\<close> is
  \<open>String.prototype.includes\<close>. The listener trims the output before it looks for the
  two markers, which begin and end with a character that is not white space.
\<close>

definition is_space :: "char \<Rightarrow> bool" where
  "is_space c = (c \<in> set [CHR '' '', CHR 0x09, CHR 0x0A, CHR 0x0B, CHR 0x0C, CHR 0x0D])"

definition trim :: "string \<Rightarrow> string" where
  "trim s = rev (dropWhile is_space (rev (dropWhile is_space s)))"

fun starts_with :: "string \<Rightarrow> string \<Rightarrow> bool" where
  "starts_with s [] = True"
| "starts_with [] (p # ps) = False"
| "starts_with (c # cs) (p # ps) = (c = p \<and> starts_with cs ps)"

fun str_includes :: "string \<Rightarrow> string \<Rightarrow> bool" where
  "str_includes [] p = (p = [])"
| "str_includes (c # cs) p = (starts_with (c # cs) p \<or> str_includes cs p)"

definition help_marker :: string where
  \<open>help_marker = ''For help, type "help"''\<close>

definition is_ready_message :: "string \<Rightarrow> bool" where
  "is_ready_message m = (str_includes m ''Done ('' \<and> str_includes m help_marker)"

subsection \<open>The memory monitor\<close>

definition startMemoryMonitoring :: "manager \<Rightarrow> manager" where
  "startMemoryMonitoring s =
     s\<lparr> memoryMonitorInterval := Some (nextInterval s),
        intervals := intervals s @ [nextInterval s],
        nextInterval := Suc (nextInterval s) \<rparr>"

definition stopMemoryMonitoring :: "manager \<Rightarrow> manager" where
  "stopMemoryMonitoring s =
     (case memoryMonitorInterval s of
        None \<Rightarrow> s
      | Some i \<Rightarrow> s\<lparr> intervals := removeAll i (intervals s), memoryMonitorInterval := None \<rparr>)"

subsection \<open>Launching, and the listeners of the child process\<close>

definition setTimeout :: "timer \<Rightarrow> nat \<Rightarrow> manager \<Rightarrow> manager" where
  "setTimeout k d s = s\<lparr> timers := timers s @ [(now s + d, k)] \<rparr>"

definition startMinecraftServer :: "manager \<Rightarrow> manager" where
  "startMinecraftServer s =
     (if minecraftProcess s \<noteq> None then s
      else s\<lparr> serverStatus := Starting, serverReady := False, startTime := Some (now s),
              minecraftProcess := Some (nextChild s), nextChild := Suc (nextChild s),
              stdinWritable := True, actions := actions s @ [Spawn (nextChild s)] \<rparr>)"

definition on_stdout :: "string \<Rightarrow> manager \<Rightarrow> manager" where
  "on_stdout data s =
     (let message = trim data in
      if is_ready_message message
      then setTimeout TDisplayInfo 1000
             (startMemoryMonitoring
                (s\<lparr> serverStatus := Online, serverReady := True, restartAttempts := 0 \<rparr>))
      else s)"

definition on_stderr :: "string \<Rightarrow> manager \<Rightarrow> manager" where
  "on_stderr data s = s"

definition on_error :: "manager \<Rightarrow> manager" where
  "on_error s = s\<lparr> serverStatus := Offline, serverReady := False, startTime := None \<rparr>"

text \<open>
  The exit code given to the \<open>close\<close> listener is a number, or \<open>null\<close> (here \<open>None\<close>) when
  the child was ended by a signal; \<open>code !== 0\<close> holds for every code but the number 0.
\<close>

definition on_close :: "int option \<Rightarrow> manager \<Rightarrow> manager" where
  "on_close code s =
     (let s1 = stopMemoryMonitoring
                 (s\<lparr> minecraftProcess := None, serverStatus := Offline,
                     serverReady := False, startTime := None \<rparr>)
      in if code \<noteq> Some 0
         then (if restartAttempts s1 < 2
               then setTimeout TRestart 30000 (s1\<lparr> restartAttempts := restartAttempts s1 + 1 \<rparr>)
               else s1)
         else s1\<lparr> restartAttempts := 0 \<rparr>)"

subsection \<open>Stopping and commands\<close>

definition stopMinecraftServer :: "manager \<Rightarrow> manager" where
  "stopMinecraftServer s =
     (case minecraftProcess s of
        None \<Rightarrow> s
      | Some p \<Rightarrow>
          (let s1 = stopMemoryMonitoring (s\<lparr> serverStatus := Stopping \<rparr>);
               s2 = s1\<lparr> actions := actions s1 @ [StdinWrite p ''stop\<newline>''] \<rparr>;
               s3 = (if stdinWritable s2 then s2
                     else s2\<lparr> actions := actions s2 @ [Kill p SIGTERM] \<rparr>)
           in setTimeout TKill 15000 s3))"

text \<open>
  \<open>!command\<close> in the route and \<open>command\<close> in \<open>executeCommand\<close> test the same thing: the
  command is there and is not the empty string.
\<close>

definition truthy :: "string option \<Rightarrow> bool" where
  "truthy command = (case command of None \<Rightarrow> False | Some c \<Rightarrow> c \<noteq> [])"

definition executeCommand :: "string option \<Rightarrow> manager \<Rightarrow> manager" where
  "executeCommand command s =
     (case minecraftProcess s of
        None \<Rightarrow> s
      | Some p \<Rightarrow>
          (case command of
             None \<Rightarrow> s
           | Some c \<Rightarrow>
               if serverReady s \<and> truthy command \<and> length c < 100
               then s\<lparr> actions := actions s @ [StdinWrite p (c @ ''\<newline>'')] \<rparr>
               else s))"

subsection \<open>The routes\<close>

text \<open>
  A route takes the state and gives the JSON reply and the state after it. Of the reply
  of the status route, the fields that depend on the supervisor are kept: \<open>status\<close>,
  \<open>running\<close>, \<open>ready\<close> and \<open>uptime\<close>.
\<close>

definition get_status :: "manager \<Rightarrow> status_reply" where
  "get_status s =
     \<lparr> status = status_string (serverStatus s),
       running = (minecraftProcess s \<noteq> None),
       ready = serverReady s,
       uptime = (case startTime s of
                   None \<Rightarrow> 0
                 | Some t \<Rightarrow> if t = 0 then 0 else (int (now s) - int t) div 1000) \<rparr>"

definition post_start :: "manager \<Rightarrow> reply \<times> manager" where
  "post_start s =
     (if serverStatus s = Starting \<or> serverStatus s = Online
      then (\<lparr> success = False, message = ''Server is already starting or running'',
              reply_status = None \<rparr>, s)
      else (\<lparr> success = True, message = ''Server is starting with memory optimization...'',
              reply_status = Some ''starting'' \<rparr>, startMinecraftServer s))"

definition post_stop :: "manager \<Rightarrow> reply \<times> manager" where
  "post_stop s =
     (if serverStatus s = Offline
      then (\<lparr> success = False, message = ''Server is already offline'',
              reply_status = None \<rparr>, s)
      else (\<lparr> success = True, message = ''Server is stopping...'',
              reply_status = Some ''stopping'' \<rparr>, stopMinecraftServer s))"

definition post_command :: "string option \<Rightarrow> manager \<Rightarrow> reply \<times> manager" where
  "post_command command s =
     (if serverStatus s \<noteq> Online \<or> \<not> truthy command
      then (\<lparr> success = False,
              message = ''Server must be online and command must be provided'',
              reply_status = None \<rparr>, s)
      else (\<lparr> success = True,
              message = ''Command executed: '' @ (case command of Some c \<Rightarrow> c | None \<Rightarrow> []),
              reply_status = None \<rparr>, executeCommand command s))"

subsection \<open>Timers and the event loop\<close>

fun fire_timer :: "timer \<Rightarrow> manager \<Rightarrow> manager" where
  "fire_timer TRestart s = startMinecraftServer s"
| "fire_timer TKill s =
     (case minecraftProcess s of
        None \<Rightarrow> s
      | Some p \<Rightarrow> s\<lparr> actions := actions s @ [Kill p SIGKILL] \<rparr>)"
| "fire_timer TDisplayInfo s = s"

definition due_timers :: "nat \<Rightarrow> (nat \<times> timer) list \<Rightarrow> (nat \<times> timer) list" where
  "due_timers t ts = sort_key fst (filter (\<lambda>x. fst x \<le> t) ts)"

fun run_due :: "(nat \<times> timer) list \<Rightarrow> manager \<Rightarrow> manager" where
  "run_due [] s = s"
| "run_due ((t, k) # rest) s = run_due rest (fire_timer k (s\<lparr> now := max (now s) t \<rparr>))"

text \<open>
  \<open>elapse d\<close> lets \<open>d\<close> milliseconds pass with no other event: the timers that fall due
  are taken off the list and run, the earliest first and in the order of their
  \<open>setTimeout\<close> calls when due together, each at the time it is due.
\<close>

definition elapse :: "nat \<Rightarrow> manager \<Rightarrow> manager" where
  "elapse d s =
     (let t = now s + d
      in (run_due (due_timers t (timers s))
            (s\<lparr> timers := filter (\<lambda>x. \<not> fst x \<le> t) (timers s) \<rparr>))\<lparr> now := t \<rparr>)"

text \<open>
  The events of the event loop. The listeners of a child exist from its spawn to its
  \<open>close\<close>, and \<open>minecraftProcess\<close> holds that child for exactly that long (only the
  \<open>close\<close> listener clears the field, and nothing is spawned while it is set), so an event
  of the child while the field is empty cannot happen and leaves the state as it is.
  \<open>StdinClosed\<close> is the child's input channel becoming unwritable.
\<close>

datatype event =
    HttpStatus
  | HttpStart
  | HttpStop
  | HttpCommand "string option"
  | ProcStdout string
  | ProcStderr string
  | ProcError
  | ProcClose "int option"
  | StdinClosed
  | Elapse nat

fun step :: "event \<Rightarrow> manager \<Rightarrow> manager" where
  "step HttpStatus s = s"
| "step HttpStart s = snd (post_start s)"
| "step HttpStop s = snd (post_stop s)"
| "step (HttpCommand c) s = snd (post_command c s)"
| "step (ProcStdout d) s = (if minecraftProcess s = None then s else on_stdout d s)"
| "step (ProcStderr d) s = (if minecraftProcess s = None then s else on_stderr d s)"
| "step ProcError s = (if minecraftProcess s = None then s else on_error s)"
| "step (ProcClose code) s = (if minecraftProcess s = None then s else on_close code s)"
| "step StdinClosed s = s\<lparr> stdinWritable := False \<rparr>"
| "step (Elapse d) s = elapse d s"

fun run :: "event list \<Rightarrow> manager \<Rightarrow> manager" where
  "run [] s = s"
| "run (e # es) s = run es (step e s)"

text \<open>A line as the server prints it once it is ready, for the examples below.\<close>

definition ready_line :: string where
  \<open>ready_line = ''[12:00:00 INFO]: Done (9.876s)! For help, type "help"''\<close>

subsection \<open>Predicates on states and events\<close>

text \<open>
  \<open>handle_iff\<close> is the relation between the process handle and the lifecycle state that
  the routes rely on; \<open>online_ok\<close> says that an Online state has \<open>serverReady\<close> set and a
  process handle. \<open>is_exit\<close> picks the \<open>close\<close> and \<open>error\<close> events of the child,
  \<open>is_ready_output\<close> the output that carries the readiness marker.
  \<open>is_close\<close> picks the \<open>close\<close> event alone, \<open>duration\<close> is the time that passes
  in a list of events, and \<open>is_sigkill\<close> picks the SIGKILL calls in the log.
\<close>

definition handle_iff :: "manager \<Rightarrow> bool" where
  "handle_iff s = ((minecraftProcess s = None) = (serverStatus s = Offline))"

definition online_ok :: "manager \<Rightarrow> bool" where
  "online_ok s = (serverStatus s \<noteq> Online \<or> (serverReady s \<and> minecraftProcess s \<noteq> None))"

fun is_exit :: "event \<Rightarrow> bool" where
  "is_exit (ProcClose code) = True"
| "is_exit ProcError = True"
| "is_exit e = False"

fun is_ready_output :: "event \<Rightarrow> bool" where
  "is_ready_output (ProcStdout d) = is_ready_message (trim d)"
| "is_ready_output e = False"

fun is_close :: "event \<Rightarrow> bool" where
  "is_close (ProcClose code) = True"
| "is_close e = False"

fun duration :: "event list \<Rightarrow> nat" where
  "duration [] = 0"
| "duration (Elapse d # es) = d + duration es"
| "duration (e # es) = duration es"

fun is_sigkill :: "action \<Rightarrow> bool" where
  "is_sigkill (Kill p SIGKILL) = True"
| "is_sigkill a = False"

section \<open>Properties\<close>

lemmas handler_defs =
  post_start_def post_stop_def post_command_def startMinecraftServer_def
  stopMinecraftServer_def executeCommand_def on_stdout_def on_stderr_def on_error_def
  on_close_def startMemoryMonitoring_def stopMemoryMonitoring_def setTimeout_def truthy_def

lemma ready_line_matches: "is_ready_message (trim ready_line)"
  by (simp add: is_ready_message_def ready_line_def help_marker_def trim_def is_space_def)

lemma run_snoc: "run (evs @ [e]) s = step e (run evs s)"
  by (induction evs arbitrary: s) simp_all

subsection \<open>Timers\<close>

text \<open>
  No timer callback sets a timer, so running the due timers leaves the pending ones alone,
  and a timer leaves the list only by falling due.
\<close>

lemma fire_timer_timers: "timers (fire_timer k s) = timers s"
  by (cases k) (simp_all add: startMinecraftServer_def split: option.splits)

lemma run_due_timers: "timers (run_due ts s) = timers s"
  by (induction ts arbitrary: s) (auto simp: fire_timer_timers)

lemma elapse_timers: "timers (elapse d s) = filter (\<lambda>x. \<not> fst x \<le> now s + d) (timers s)"
  by (simp add: elapse_def Let_def run_due_timers)

lemma step_keeps_timers:
  "\<forall>d. e \<noteq> Elapse d \<Longrightarrow> set (timers u) \<subseteq> set (timers (step e u))"
  by (cases e) (auto simp: handler_defs Let_def split: option.splits)

text \<open>
  While a child exists, timers change nothing but the clock and the log: a relaunch timer
  finds the handle set and returns, a kill timer sends SIGKILL to that child.
\<close>

lemma run_due_alive:
  "minecraftProcess s = Some p \<Longrightarrow>
     minecraftProcess (run_due ts s) = Some p
     \<and> serverReady (run_due ts s) = serverReady s
     \<and> serverStatus (run_due ts s) = serverStatus s
     \<and> actions (run_due ts s)
         = actions s @ map (\<lambda>x. Kill p SIGKILL) (filter (\<lambda>x. snd x = TKill) ts)"
proof (induction ts arbitrary: s)
  case Nil
  then show ?case by simp
next
  case (Cons x ts)
  obtain t k where x: "x = (t, k)" by (cases x)
  let ?s1 = "fire_timer k (s\<lparr>now := max (now s) t\<rparr>)"
  have s1: "minecraftProcess ?s1 = Some p" "serverReady ?s1 = serverReady s"
    "serverStatus ?s1 = serverStatus s"
    "actions ?s1 = actions s @ (if k = TKill then [Kill p SIGKILL] else [])"
    using Cons.prems by (cases k; simp add: startMinecraftServer_def)+
  show ?case
    using Cons.IH [OF s1(1)] s1 x by simp
qed

lemma elapse_alive:
  "minecraftProcess s = Some p \<Longrightarrow>
     minecraftProcess (elapse d s) = Some p
     \<and> serverReady (elapse d s) = serverReady s
     \<and> serverStatus (elapse d s) = serverStatus s
     \<and> actions (elapse d s)
         = actions s @ map (\<lambda>x. Kill p SIGKILL)
                         (filter (\<lambda>x. snd x = TKill) (due_timers (now s + d) (timers s)))"
  using run_due_alive [of "s\<lparr>timers := filter (\<lambda>x. \<not> fst x \<le> now s + d) (timers s)\<rparr>" p
      "due_timers (now s + d) (timers s)"]
  by (simp add: elapse_def Let_def)

lemma stop_alive:
  "minecraftProcess s = Some p \<Longrightarrow>
     minecraftProcess (stopMinecraftServer s) = Some p
     \<and> serverStatus (stopMinecraftServer s) = Stopping
     \<and> serverReady (stopMinecraftServer s) = serverReady s
     \<and> now (stopMinecraftServer s) = now s
     \<and> timers (stopMinecraftServer s) = timers s @ [(now s + 15000, TKill)]"
  by (simp add: handler_defs Let_def split: option.splits)

subsection \<open>An Online state is ready and has a process\<close>

lemma fire_timer_online_ok: "online_ok s \<Longrightarrow> online_ok (fire_timer k s)"
  by (cases k) (auto simp: online_ok_def startMinecraftServer_def split: option.splits)

lemma run_due_online_ok: "online_ok s \<Longrightarrow> online_ok (run_due ts s)"
proof (induction ts arbitrary: s)
  case Nil
  then show ?case by simp
next
  case (Cons x ts)
  obtain t k where x: "x = (t, k)" by (cases x)
  have "online_ok (s\<lparr>now := max (now s) t\<rparr>)"
    using Cons.prems by (simp add: online_ok_def)
  then have "online_ok (fire_timer k (s\<lparr>now := max (now s) t\<rparr>))"
    by (rule fire_timer_online_ok)
  then show ?case using Cons.IH x by simp
qed

lemma elapse_online_ok: "online_ok s \<Longrightarrow> online_ok (elapse d s)"
proof -
  assume a: "online_ok s"
  have "online_ok (s\<lparr>timers := filter (\<lambda>x. \<not> fst x \<le> now s + d) (timers s)\<rparr>)"
    using a by (simp add: online_ok_def)
  then have "online_ok (run_due (due_timers (now s + d) (timers s))
      (s\<lparr>timers := filter (\<lambda>x. \<not> fst x \<le> now s + d) (timers s)\<rparr>))"
    by (rule run_due_online_ok)
  then show ?thesis by (simp add: elapse_def Let_def online_ok_def)
qed

lemma step_online_ok: "online_ok s \<Longrightarrow> online_ok (step e s)"
proof (cases e)
  case (Elapse d)
  assume "online_ok s"
  then show ?thesis using Elapse by (simp add: elapse_online_ok)
qed (auto simp: online_ok_def handler_defs Let_def split: option.splits)

lemma run_online_ok: "online_ok s \<Longrightarrow> online_ok (run evs s)"
  by (induction evs arbitrary: s) (auto simp: step_online_ok)

lemma reachable_online_ok: "online_ok (run evs (constructor t0))"
proof (rule run_online_ok)
  show "online_ok (constructor t0)"
    by (simp add: online_ok_def constructor_def)
qed

subsection \<open>The process handle and the lifecycle state\<close>

text \<open>
  Every event but the child's \<open>error\<close> keeps the handle set exactly when the state is
  not Offline.
\<close>

lemma fire_timer_handle_iff: "handle_iff s \<Longrightarrow> handle_iff (fire_timer k s)"
  by (cases k) (auto simp: handle_iff_def startMinecraftServer_def split: option.splits)

lemma run_due_handle_iff: "handle_iff s \<Longrightarrow> handle_iff (run_due ts s)"
proof (induction ts arbitrary: s)
  case Nil
  then show ?case by simp
next
  case (Cons x ts)
  obtain t k where x: "x = (t, k)" by (cases x)
  have "handle_iff (s\<lparr>now := max (now s) t\<rparr>)"
    using Cons.prems by (simp add: handle_iff_def)
  then have "handle_iff (fire_timer k (s\<lparr>now := max (now s) t\<rparr>))"
    by (rule fire_timer_handle_iff)
  then show ?case using Cons.IH x by simp
qed

lemma elapse_handle_iff: "handle_iff s \<Longrightarrow> handle_iff (elapse d s)"
proof -
  assume a: "handle_iff s"
  have "handle_iff (s\<lparr>timers := filter (\<lambda>x. \<not> fst x \<le> now s + d) (timers s)\<rparr>)"
    using a by (simp add: handle_iff_def)
  then have "handle_iff (run_due (due_timers (now s + d) (timers s))
      (s\<lparr>timers := filter (\<lambda>x. \<not> fst x \<le> now s + d) (timers s)\<rparr>))"
    by (rule run_due_handle_iff)
  then show ?thesis by (simp add: elapse_def Let_def handle_iff_def)
qed

lemma step_handle_iff: "handle_iff s \<Longrightarrow> e \<noteq> ProcError \<Longrightarrow> handle_iff (step e s)"
proof (cases e)
  case (Elapse d)
  assume "handle_iff s"
  then show ?thesis using Elapse by (simp add: elapse_handle_iff)
qed (auto simp: handle_iff_def handler_defs Let_def split: option.splits)

lemma run_handle_iff:
  "handle_iff s \<Longrightarrow> ProcError \<notin> set evs \<Longrightarrow> handle_iff (run evs s)"
  by (induction evs arbitrary: s) (auto simp: step_handle_iff)

text \<open>
  Claim C1 says that the process handle is set exactly when the state is Starting, Online
  or Stopping, at every reachable state, and that every event keeps it so, the \<open>error\<close>
  and \<open>close\<close> events of the child included. The \<open>close\<close> listener clears the handle
  together with the state; the \<open>error\<close> listener sets the state to offline and leaves
  the handle. After a start request and an \<open>error\<close> event the state is Offline and the
  handle of child 0 is still set.
\<close>

theorem error_listener_keeps_process_handle:
  "serverStatus (run [HttpStart, ProcError] (constructor 0)) = Offline
   \<and> minecraftProcess (run [HttpStart, ProcError] (constructor 0)) = Some 0
   \<and> \<not> handle_iff (run [HttpStart, ProcError] (constructor 0))"
  by (simp add: constructor_def handler_defs handle_iff_def)

subsection \<open>Readiness\<close>

text \<open>
  Claim C2 says that a line with the readiness marker causes the Ready transition, and
  only when the state is Starting as the line arrives. The \<open>stdout\<close> listener does not
  look at the state. A second matching line, arriving after a stop request while the state
  is Stopping, sets the state back to Online.
\<close>

theorem ready_line_while_stopping:
  "serverStatus (run [HttpStart, ProcStdout ready_line, HttpStop] (constructor 0)) = Stopping
   \<and> serverStatus (run [HttpStart, ProcStdout ready_line, HttpStop, ProcStdout ready_line]
                     (constructor 0)) = Online"
  by (simp add: constructor_def handler_defs ready_line_matches)

text \<open>
  Claim C2, amended: output of the child that contains both \<open>Done (\<close> and
  \<open>For help, type "help"\<close> causes the Ready transition in whatever state it arrives:
  the state becomes Online, \<open>serverReady\<close> true, \<open>restartAttempts\<close> 0, and a memory
  monitor interval is set and recorded. Output without the marker changes nothing.
\<close>

theorem ready_transition:
  "minecraftProcess s \<noteq> None \<Longrightarrow>
     (is_ready_message (trim data) \<longrightarrow>
        serverStatus (step (ProcStdout data) s) = Online
        \<and> serverReady (step (ProcStdout data) s)
        \<and> restartAttempts (step (ProcStdout data) s) = 0
        \<and> memoryMonitorInterval (step (ProcStdout data) s) = Some (nextInterval s)
        \<and> nextInterval s \<in> set (intervals (step (ProcStdout data) s)))
     \<and> (\<not> is_ready_message (trim data) \<longrightarrow> step (ProcStdout data) s = s)"
  by (auto simp: handler_defs)

theorem ready_transition_witness:
  "serverStatus (run [HttpStart] (constructor 0)) = Starting
   \<and> serverStatus (step (ProcStdout ready_line) (run [HttpStart] (constructor 0))) = Online
   \<and> serverReady (step (ProcStdout ready_line) (run [HttpStart] (constructor 0)))
   \<and> restartAttempts (step (ProcStdout ready_line) (run [HttpStart] (constructor 0))) = 0
   \<and> memoryMonitorInterval (step (ProcStdout ready_line) (run [HttpStart] (constructor 0))) = Some 0
   \<and> 0 \<in> set (intervals (step (ProcStdout ready_line) (run [HttpStart] (constructor 0))))
   \<and> step (ProcStdout ''Preparing level'') (run [HttpStart] (constructor 0))
       = run [HttpStart] (constructor 0)"
proof -
  let ?s = "run [HttpStart] (constructor 0)"
  have a: "minecraftProcess ?s \<noteq> None" "nextInterval ?s = 0" "serverStatus ?s = Starting"
    by (simp_all add: constructor_def handler_defs)
  have b: "\<not> is_ready_message (trim ''Preparing level'')"
    by (simp add: is_ready_message_def trim_def is_space_def)
  show ?thesis
    using ready_transition [of ?s ready_line, OF a(1)]
      ready_transition [of ?s "''Preparing level''", OF a(1)] ready_line_matches a(2,3) b
    by simp
qed

subsection \<open>Process exit\<close>

text \<open>
  Claim C5: whatever the state and the exit code, the \<open>close\<close> listener sets the state to
  Offline, clears \<open>serverReady\<close> and the process handle, and stops the memory monitor
  (the interval held in \<open>memoryMonitorInterval\<close> is cleared and the field emptied); when
  the exit code is 0 it also sets \<open>restartAttempts\<close> to 0 and sets no timer, so no
  relaunch is scheduled.
\<close>

theorem close_listener_resets:
  "serverStatus (on_close code s) = Offline
   \<and> \<not> serverReady (on_close code s)
   \<and> minecraftProcess (on_close code s) = None
   \<and> memoryMonitorInterval (on_close code s) = None
   \<and> (\<forall>i. memoryMonitorInterval s = Some i \<longrightarrow> i \<notin> set (intervals (on_close code s)))
   \<and> (code = Some 0 \<longrightarrow>
         restartAttempts (on_close code s) = 0 \<and> timers (on_close code s) = timers s)"
  by (simp add: handler_defs Let_def split: option.splits)

theorem close_listener_resets_witness:
  "serverStatus (on_close (Some 0) (run [HttpStart, ProcStdout ready_line] (constructor 0))) = Offline
   \<and> 0 \<notin> set (intervals (on_close (Some 0) (run [HttpStart, ProcStdout ready_line] (constructor 0))))
   \<and> restartAttempts (on_close (Some 0) (run [HttpStart, ProcStdout ready_line] (constructor 0))) = 0
   \<and> timers (on_close (Some 0) (run [HttpStart, ProcStdout ready_line] (constructor 0)))
       = [(1000, TDisplayInfo)]"
  using close_listener_resets [of "Some 0" "run [HttpStart, ProcStdout ready_line] (constructor 0)"]
  by (simp add: constructor_def handler_defs ready_line_matches)

subsection \<open>Relaunch after a crash\<close>

text \<open>
  Once the manager is offline with no process handle and no pending timer, only a start
  request launches a process again.
\<close>

lemma idle_step:
  "minecraftProcess s = None \<Longrightarrow> serverStatus s = Offline \<Longrightarrow> timers s = [] \<Longrightarrow>
   e \<noteq> HttpStart \<Longrightarrow>
     minecraftProcess (step e s) = None \<and> serverStatus (step e s) = Offline
     \<and> timers (step e s) = [] \<and> actions (step e s) = actions s"
  by (cases e) (simp_all add: handler_defs elapse_def due_timers_def Let_def)

lemma idle_run:
  "minecraftProcess s = None \<Longrightarrow> serverStatus s = Offline \<Longrightarrow> timers s = [] \<Longrightarrow>
   HttpStart \<notin> set evs \<Longrightarrow>
     serverStatus (run evs s) = Offline \<and> actions (run evs s) = actions s"
proof (induction evs arbitrary: s)
  case Nil
  then show ?case by simp
next
  case (Cons e evs)
  have e: "e \<noteq> HttpStart" and evs: "HttpStart \<notin> set evs"
    using Cons.prems(4) by auto
  note st = idle_step [OF Cons.prems(1-3) e]
  show ?case
    using Cons.IH [of "step e s"] st evs by simp
qed

text \<open>
  Claim C3: when the child exits with a code other than 0 (a signal's \<open>null\<close> included)
  and \<open>restartAttempts\<close> is below 2, the counter goes up by one and a relaunch is set for
  30000 ms later; at 2 or more nothing is scheduled, the counter stays and the state is
  Offline. From a fresh manager: after the first crash nothing is spawned before 30000 ms
  have passed and child 1 is spawned at 30000 ms; after three crashes in a row (none of
  the children reaching readiness) no timer is pending, and whatever follows, short of a
  start request, leaves the state Offline and spawns nothing; a start request then spawns
  child 3.
\<close>

theorem crash_restart_policy:
  assumes "code \<noteq> Some 0" and "c1 \<noteq> Some 0" and "c2 \<noteq> Some 0" and "c3 \<noteq> Some 0"
  shows "(restartAttempts s < 2 \<longrightarrow>
            restartAttempts (on_close code s) = restartAttempts s + 1
            \<and> timers (on_close code s) = timers s @ [(now s + 30000, TRestart)])
    \<and> (2 \<le> restartAttempts s \<longrightarrow>
            restartAttempts (on_close code s) = restartAttempts s
            \<and> timers (on_close code s) = timers s
            \<and> serverStatus (on_close code s) = Offline
            \<and> minecraftProcess (on_close code s) = None)
    \<and> (\<forall>d<30000. actions (run [HttpStart, ProcClose c1, Elapse d] (constructor t0)) = [Spawn 0])
    \<and> actions (run [HttpStart, ProcClose c1, Elapse 30000] (constructor t0)) = [Spawn 0, Spawn 1]
    \<and> actions (run [HttpStart, ProcClose c1, Elapse 30000, ProcClose c2, Elapse 30000, ProcClose c3]
                 (constructor t0)) = [Spawn 0, Spawn 1, Spawn 2]
    \<and> timers (run [HttpStart, ProcClose c1, Elapse 30000, ProcClose c2, Elapse 30000, ProcClose c3]
                 (constructor t0)) = []
    \<and> (\<forall>evs. HttpStart \<notin> set evs \<longrightarrow>
          serverStatus (run ([HttpStart, ProcClose c1, Elapse 30000, ProcClose c2, Elapse 30000,
                              ProcClose c3] @ evs) (constructor t0)) = Offline
          \<and> actions (run ([HttpStart, ProcClose c1, Elapse 30000, ProcClose c2, Elapse 30000,
                             ProcClose c3] @ evs) (constructor t0)) = [Spawn 0, Spawn 1, Spawn 2])
    \<and> actions (run [HttpStart, ProcClose c1, Elapse 30000, ProcClose c2, Elapse 30000, ProcClose c3,
                    HttpStart] (constructor t0)) = [Spawn 0, Spawn 1, Spawn 2, Spawn 3]"
proof -
  let ?s3 = "run [HttpStart, ProcClose c1, Elapse 30000, ProcClose c2, Elapse 30000, ProcClose c3]
               (constructor t0)"
  have local: "(restartAttempts s < 2 \<longrightarrow>
            restartAttempts (on_close code s) = restartAttempts s + 1
            \<and> timers (on_close code s) = timers s @ [(now s + 30000, TRestart)])
    \<and> (2 \<le> restartAttempts s \<longrightarrow>
            restartAttempts (on_close code s) = restartAttempts s
            \<and> timers (on_close code s) = timers s
            \<and> serverStatus (on_close code s) = Offline
            \<and> minecraftProcess (on_close code s) = None)"
    using assms(1) by (simp add: handler_defs Let_def split: option.splits)
  have early: "\<forall>d<30000. actions (run [HttpStart, ProcClose c1, Elapse d] (constructor t0)) = [Spawn 0]"
    using assms(2) by (simp add: constructor_def handler_defs elapse_def due_timers_def Let_def)
  have first: "actions (run [HttpStart, ProcClose c1, Elapse 30000] (constructor t0)) = [Spawn 0, Spawn 1]"
    using assms(2) by (simp add: constructor_def handler_defs elapse_def due_timers_def Let_def)
  have s3: "minecraftProcess ?s3 = None" "serverStatus ?s3 = Offline" "timers ?s3 = []"
    "actions ?s3 = [Spawn 0, Spawn 1, Spawn 2]"
    using assms(2-4) by (simp_all add: constructor_def handler_defs elapse_def due_timers_def Let_def)
  have rest: "serverStatus (run evs ?s3) = Offline \<and> actions (run evs ?s3) = [Spawn 0, Spawn 1, Spawn 2]"
    if "HttpStart \<notin> set evs" for evs
    using idle_run [OF s3(1-3) that] s3(4) by simp
  have manual: "actions (step HttpStart ?s3) = [Spawn 0, Spawn 1, Spawn 2, Spawn 3]"
    using assms(2-4) by (simp add: constructor_def handler_defs elapse_def due_timers_def Let_def)
  show ?thesis
    using local early first s3 rest manual by simp
qed

theorem crash_restart_policy_witness:
  "restartAttempts (on_close (Some 1) (run [HttpStart] (constructor 0))) = 1
   \<and> timers (on_close (Some 1) (run [HttpStart] (constructor 0))) = [(30000, TRestart)]
   \<and> actions (run [HttpStart, ProcClose (Some 1), Elapse 29999] (constructor 0)) = [Spawn 0]
   \<and> actions (run [HttpStart, ProcClose (Some 1), Elapse 30000] (constructor 0)) = [Spawn 0, Spawn 1]
   \<and> actions (run [HttpStart, ProcClose (Some 1), Elapse 30000, ProcClose None, Elapse 30000,
                   ProcClose (Some 137)] (constructor 0)) = [Spawn 0, Spawn 1, Spawn 2]
   \<and> serverStatus (run ([HttpStart, ProcClose (Some 1), Elapse 30000, ProcClose None, Elapse 30000,
                         ProcClose (Some 137)] @ [Elapse 600000, HttpStop]) (constructor 0)) = Offline"
proof -
  have c: "Some (1::int) \<noteq> Some 0" "(None::int option) \<noteq> Some 0" "Some (137::int) \<noteq> Some 0"
    by simp_all
  note t = crash_restart_policy [OF c(1) c(1) c(2) c(3), of "run [HttpStart] (constructor 0)" 0]
  have r: "restartAttempts (run [HttpStart] (constructor 0)) = 0"
    "timers (run [HttpStart] (constructor 0)) = []" "now (run [HttpStart] (constructor 0)) = 0"
    by (simp_all add: constructor_def handler_defs)
  have q: "HttpStart \<notin> set [Elapse 600000, HttpStop]" by simp
  from t q have "serverStatus (run ([HttpStart, ProcClose (Some 1), Elapse 30000, ProcClose None,
      Elapse 30000, ProcClose (Some 137)] @ [Elapse 600000, HttpStop]) (constructor 0)) = Offline"
    by blast
  moreover from t have
    "actions (run [HttpStart, ProcClose (Some 1), Elapse 29999] (constructor 0)) = [Spawn 0]"
    by simp
  ultimately show ?thesis using t r by simp
qed

subsection \<open>The escalation timer of stop\<close>

text \<open>
  Claim C4 says that the kill timer of \<open>stopMinecraftServer\<close> is cancelled when the
  process exits before it fires, so that it never fires against a missing or a newly
  started process. No timer is ever cancelled. After a stop request and a clean exit the
  kill timer is still pending; a start request within the 15000 ms launches child 1, and
  when the timer of the earlier stop fires it sends SIGKILL to child 1.
\<close>

theorem kill_timer_outlives_exit:
  "(15000, TKill) \<in> set (timers (run [HttpStart, ProcStdout ready_line, HttpStop, ProcClose (Some 0)]
                                   (constructor 0)))
   \<and> minecraftProcess (run [HttpStart, ProcStdout ready_line, HttpStop, ProcClose (Some 0)]
                         (constructor 0)) = None
   \<and> actions (run [HttpStart, ProcStdout ready_line, HttpStop, ProcClose (Some 0), HttpStart,
                   Elapse 15000] (constructor 0))
       = [Spawn 0, StdinWrite 0 ''stop\<newline>'', Spawn 1, Kill 1 SIGKILL]"
  by (simp add: constructor_def handler_defs ready_line_matches elapse_def due_timers_def Let_def)

text \<open>
  The log only grows, a child's handle stays until its \<open>close\<close> event, and a kill
  timer that is pending fires once its time has come.
\<close>

lemma now_elapse: "now (elapse d s) = now s + d"
  by (simp add: elapse_def Let_def)

lemma now_step: "\<forall>d. e \<noteq> Elapse d \<Longrightarrow> now (step e s) = now s"
  by (cases e) (auto simp: handler_defs Let_def split: option.splits)

lemma fire_timer_actions_grow: "set (actions s) \<subseteq> set (actions (fire_timer k s))"
  by (cases k) (auto simp: startMinecraftServer_def split: option.splits)

lemma run_due_actions_grow: "set (actions s) \<subseteq> set (actions (run_due ts s))"
proof (induction ts arbitrary: s)
  case Nil
  then show ?case by simp
next
  case (Cons x ts)
  obtain t k where x: "x = (t, k)" by (cases x)
  have "set (actions s) \<subseteq> set (actions (fire_timer k (s\<lparr>now := max (now s) t\<rparr>)))"
    using fire_timer_actions_grow [of "s\<lparr>now := max (now s) t\<rparr>" k] by simp
  then show ?case
    using Cons.IH [of "fire_timer k (s\<lparr>now := max (now s) t\<rparr>)"] x by auto
qed

lemma step_actions_grow: "set (actions s) \<subseteq> set (actions (step e s))"
proof (cases e)
  case (Elapse d)
  then show ?thesis
    using run_due_actions_grow
      [of "s\<lparr>timers := filter (\<lambda>x. \<not> fst x \<le> now s + d) (timers s)\<rparr>"
          "due_timers (now s + d) (timers s)"]
    by (simp add: elapse_def Let_def)
qed (auto simp: handler_defs Let_def split: option.splits)

lemma run_actions_grow: "set (actions s) \<subseteq> set (actions (run evs s))"
proof (induction evs arbitrary: s)
  case Nil
  then show ?case by simp
next
  case (Cons e evs)
  then show ?case using step_actions_grow [of s e] by auto
qed

lemma step_keeps_handle:
  "minecraftProcess s = Some p \<Longrightarrow> \<not> is_close e \<Longrightarrow> minecraftProcess (step e s) = Some p"
proof (cases e)
  case (Elapse d)
  assume "minecraftProcess s = Some p"
  then show ?thesis using Elapse elapse_alive [of s p d] by simp
qed (auto simp: handler_defs Let_def split: option.splits)

lemma kill_fires:
  "minecraftProcess u = Some p \<Longrightarrow> (T, TKill) \<in> set (timers u) \<Longrightarrow> now u < T \<Longrightarrow>
   \<forall>e\<in>set evs. \<not> is_close e \<Longrightarrow> T \<le> now u + duration evs \<Longrightarrow>
     Kill p SIGKILL \<in> set (actions (run evs u))"
proof (induction evs arbitrary: u)
  case Nil
  then show ?case by simp
next
  case (Cons e evs)
  have alive: "minecraftProcess (step e u) = Some p"
    using step_keeps_handle [of u p e] Cons.prems by simp
  have rest: "\<forall>e\<in>set evs. \<not> is_close e" using Cons.prems by simp
  show ?case
  proof (cases "\<exists>d. e = Elapse d")
    case True
    then obtain d where e: "e = Elapse d" by blast
    show ?thesis
    proof (cases "T \<le> now u + d")
      case True
      have "(T, TKill) \<in> set (due_timers (now u + d) (timers u))"
        using Cons.prems(2) True by (simp add: due_timers_def)
      then have "Kill p SIGKILL \<in> set (actions (elapse d u))"
        using elapse_alive [of u p d] Cons.prems(1) by force
      then show ?thesis
        using run_actions_grow [of "elapse d u" evs] e by auto
    next
      case False
      have pend: "(T, TKill) \<in> set (timers (step e u))"
        using Cons.prems(2) False e by (simp add: elapse_timers)
      have nw: "now (step e u) < T" using False e by (simp add: now_elapse)
      have dur: "T \<le> now (step e u) + duration evs"
        using Cons.prems(5) e by (simp add: now_elapse)
      show ?thesis
        using Cons.IH [OF alive pend nw rest dur] by simp
    qed
  next
    case False
    then have ne: "\<forall>d. e \<noteq> Elapse d" by simp
    have pend: "(T, TKill) \<in> set (timers (step e u))"
      using step_keeps_timers [OF ne, of u] Cons.prems(2) by auto
    have nw: "now (step e u) < T" using now_step [OF ne] Cons.prems(3) by simp
    have "duration (e # evs) = duration evs" using ne by (cases e) simp_all
    then have dur: "T \<le> now (step e u) + duration evs"
      using Cons.prems(5) now_step [OF ne, of u] by simp
    show ?thesis
      using Cons.IH [OF alive pend nw rest dur] by simp
  qed
qed

lemma run_due_no_kill:
  "\<forall>x\<in>set ts. snd x \<noteq> TKill \<Longrightarrow>
     filter is_sigkill (actions (run_due ts s)) = filter is_sigkill (actions s)"
proof (induction ts arbitrary: s)
  case Nil
  then show ?case by simp
next
  case (Cons x ts)
  obtain t k where x: "x = (t, k)" by (cases x)
  have k: "k \<noteq> TKill" using Cons.prems x by simp
  have "filter is_sigkill (actions (fire_timer k (s\<lparr>now := max (now s) t\<rparr>)))
          = filter is_sigkill (actions s)"
    using k by (cases k) (simp_all add: startMinecraftServer_def)
  then show ?case
    using Cons.IH [of "fire_timer k (s\<lparr>now := max (now s) t\<rparr>)"] Cons.prems x by simp
qed

lemma no_kill_before:
  "\<forall>x\<in>set (timers u). snd x = TKill \<longrightarrow> now u + duration evs < fst x \<Longrightarrow>
   duration evs < 15000 \<Longrightarrow>
     filter is_sigkill (actions (run evs u)) = filter is_sigkill (actions u)"
proof (induction evs arbitrary: u)
  case Nil
  then show ?case by simp
next
  case (Cons e evs)
  show ?case
  proof (cases "\<exists>d. e = Elapse d")
    case True
    then obtain d where e: "e = Elapse d" by blast
    have "\<forall>x\<in>set (due_timers (now u + d) (timers u)). snd x \<noteq> TKill"
      using Cons.prems(1) e by (auto simp: due_timers_def)
    then have same: "filter is_sigkill (actions (elapse d u)) = filter is_sigkill (actions u)"
      using run_due_no_kill
        [of "due_timers (now u + d) (timers u)"
            "u\<lparr>timers := filter (\<lambda>x. \<not> fst x \<le> now u + d) (timers u)\<rparr>"]
      by (simp add: elapse_def Let_def)
    have inv: "\<forall>x\<in>set (timers (elapse d u)). snd x = TKill \<longrightarrow> now (elapse d u) + duration evs < fst x"
      using Cons.prems(1) e by (auto simp: elapse_timers now_elapse)
    have dur: "duration evs < 15000" using Cons.prems(2) e by simp
    show ?thesis
      using Cons.IH [OF inv dur] same e by simp
  next
    case False
    then have ne: "\<forall>d. e \<noteq> Elapse d" by simp
    have d: "duration (e # evs) = duration evs" using ne by (cases e) simp_all
    have same: "filter is_sigkill (actions (step e u)) = filter is_sigkill (actions u)"
      using ne by (cases e) (auto simp: handler_defs Let_def split: option.splits)
    have inv: "\<forall>x\<in>set (timers (step e u)). snd x = TKill \<longrightarrow> now (step e u) + duration evs < fst x"
      using ne Cons.prems d
      by (cases e) (auto simp: handler_defs Let_def split: option.splits)
    have dur: "duration evs < 15000" using Cons.prems(2) d by simp
    show ?thesis
      using Cons.IH [OF inv dur] same by simp
  qed
qed

text \<open>
  Claim C4, amended: \<open>stopMinecraftServer\<close>, called while a process handle is set, sets
  a kill timer due 15000 ms later. If the process has not exited (no \<open>close\<close> event)
  when 15000 ms have passed, then whatever else has happened SIGKILL has been sent to it;
  with no other kill timer pending, no SIGKILL is sent before the 15000 ms are over. The
  timer is never cancelled: no request and no event of the child takes a timer off the
  list, and passing time takes off only the timers that fall due. When a kill timer fires
  while the process handle is empty, it does nothing.
\<close>

theorem escalation_timer:
  assumes "minecraftProcess s = Some p"
  shows "timers (stopMinecraftServer s) = timers s @ [(now s + 15000, TKill)]
    \<and> (\<forall>evs. (\<forall>e\<in>set evs. \<not> is_close e) \<and> 15000 \<le> duration evs \<longrightarrow>
          Kill p SIGKILL \<in> set (actions (run evs (stopMinecraftServer s))))
    \<and> ((\<forall>x\<in>set (timers s). snd x \<noteq> TKill) \<longrightarrow>
          (\<forall>evs. duration evs < 15000 \<longrightarrow>
             filter is_sigkill (actions (run evs (stopMinecraftServer s)))
               = filter is_sigkill (actions s)))
    \<and> (\<forall>e u. (\<forall>d. e \<noteq> Elapse d) \<longrightarrow> set (timers u) \<subseteq> set (timers (step e u)))
    \<and> (\<forall>d u. timers (elapse d u) = filter (\<lambda>x. \<not> fst x \<le> now u + d) (timers u))
    \<and> (\<forall>u. minecraftProcess u = None \<longrightarrow> fire_timer TKill u = u)"
proof -
  let ?s = "stopMinecraftServer s"
  note st = stop_alive [OF assms]
  have pend: "(now s + 15000, TKill) \<in> set (timers ?s)" using st by simp
  have nw: "now ?s < now s + 15000" using st by simp
  have fires: "Kill p SIGKILL \<in> set (actions (run evs ?s))"
    if "\<forall>e\<in>set evs. \<not> is_close e" "15000 \<le> duration evs" for evs
    using kill_fires [of ?s p "now s + 15000" evs] st pend that by simp
  have stopped: "filter is_sigkill (actions ?s) = filter is_sigkill (actions s)"
    using assms by (simp add: handler_defs Let_def split: option.splits)
  have before: "filter is_sigkill (actions (run evs ?s)) = filter is_sigkill (actions s)"
    if "\<forall>x\<in>set (timers s). snd x \<noteq> TKill" "duration evs < 15000" for evs
  proof -
    have "\<forall>x\<in>set (timers ?s). snd x = TKill \<longrightarrow> now ?s + duration evs < fst x"
      using st that by auto
    then show ?thesis
      using no_kill_before [of ?s evs] that(2) stopped by simp
  qed
  show ?thesis
    using st fires before step_keeps_timers elapse_timers by simp
qed

theorem escalation_timer_witness:
  "timers (stopMinecraftServer (run [HttpStart, ProcStdout ready_line] (constructor 0)))
     = [(1000, TDisplayInfo), (15000, TKill)]
   \<and> filter is_sigkill (actions (run [HttpStatus, Elapse 14999]
        (stopMinecraftServer (run [HttpStart, ProcStdout ready_line] (constructor 0))))) = []
   \<and> Kill 0 SIGKILL \<in> set (actions (run [HttpStatus, Elapse 15000]
        (stopMinecraftServer (run [HttpStart, ProcStdout ready_line] (constructor 0)))))"
proof -
  let ?on = "run [HttpStart, ProcStdout ready_line] (constructor 0)"
  have on: "minecraftProcess ?on = Some 0" "timers ?on = [(1000, TDisplayInfo)]" "now ?on = 0"
    "actions ?on = [Spawn 0]"
    by (simp_all add: constructor_def handler_defs ready_line_matches)
  note t = escalation_timer [OF on(1)]
  have q: "\<forall>x\<in>set (timers ?on). snd x \<noteq> TKill" using on(2) by simp
  have e1: "duration [HttpStatus, Elapse 14999] < 15000" by simp
  have e2: "(\<forall>e\<in>set [HttpStatus, Elapse 15000]. \<not> is_close e)
            \<and> 15000 \<le> duration [HttpStatus, Elapse 15000]" by simp
  from t q e1 have "filter is_sigkill (actions (run [HttpStatus, Elapse 14999] (stopMinecraftServer ?on)))
      = filter is_sigkill (actions ?on)"
    by blast
  moreover from t e2 have
    "Kill 0 SIGKILL \<in> set (actions (run [HttpStatus, Elapse 15000] (stopMinecraftServer ?on)))"
    by blast
  ultimately show ?thesis using t on by simp
qed

subsection \<open>The command route\<close>

text \<open>
  Claim C6 says that a command of 100 characters or more is reported to the caller as a
  failure. The route tests only the state and whether a command was given; the length is
  tested in \<open>executeCommand\<close>, which returns without a word. A command of 100 characters
  sent while the server is online is answered with \<open>success: true\<close>, and nothing is
  written.
\<close>

theorem oversized_command_reported_as_success:
  "serverStatus (run [HttpStart, ProcStdout ready_line] (constructor 0)) = Online
   \<and> success (fst (post_command (Some (replicate 100 (CHR ''a'')))
                     (run [HttpStart, ProcStdout ready_line] (constructor 0))))
   \<and> snd (post_command (Some (replicate 100 (CHR ''a'')))
            (run [HttpStart, ProcStdout ready_line] (constructor 0)))
       = run [HttpStart, ProcStdout ready_line] (constructor 0)"
  by (simp add: constructor_def handler_defs ready_line_matches)

text \<open>
  Claim C6, amended: a command request with no command text (none, or the empty string),
  or made while the state is not Online, is answered at once with \<open>success: false\<close> and
  changes nothing. A command of 100 characters or more made while the state is Online is
  not reported: the answer is \<open>success: true\<close>, and the command is dropped without a
  write.
\<close>

theorem command_precondition_reply:
  "(serverStatus s \<noteq> Online \<or> \<not> truthy command \<longrightarrow>
      post_command command s =
        (\<lparr> success = False, message = ''Server must be online and command must be provided'',
           reply_status = None \<rparr>, s))
   \<and> (serverStatus s = Online \<and> command = Some c \<and> 100 \<le> length c \<longrightarrow>
        success (fst (post_command command s)) \<and> snd (post_command command s) = s)"
  by (auto simp: post_command_def executeCommand_def truthy_def split: option.splits)

theorem command_precondition_reply_witness:
  "post_command None (run [HttpStart, ProcStdout ready_line] (constructor 0)) =
        (\<lparr> success = False, message = ''Server must be online and command must be provided'',
           reply_status = None \<rparr>, run [HttpStart, ProcStdout ready_line] (constructor 0))
   \<and> post_command (Some []) (run [HttpStart, ProcStdout ready_line] (constructor 0)) =
        (\<lparr> success = False, message = ''Server must be online and command must be provided'',
           reply_status = None \<rparr>, run [HttpStart, ProcStdout ready_line] (constructor 0))
   \<and> success (fst (post_command (Some (replicate 100 (CHR ''a'')))
                     (run [HttpStart, ProcStdout ready_line] (constructor 0))))"
proof -
  let ?on = "run [HttpStart, ProcStdout ready_line] (constructor 0)"
  have on: "serverStatus ?on = Online"
    by (simp add: constructor_def handler_defs ready_line_matches)
  show ?thesis
    using command_precondition_reply [of ?on None]
      command_precondition_reply [of ?on "Some []"]
      command_precondition_reply [of ?on "Some (replicate 100 (CHR ''a''))" "replicate 100 (CHR ''a'')"]
      on
    by (simp add: truthy_def)
qed

text \<open>
  Claim C7: at every state the manager can reach, a command request writes the text and a
  newline to the child's input exactly when the state is Online, the text is there (given
  and not empty, which is what the source's test of \<open>command\<close> asks) and shorter than 100
  characters; the process handle is then set, and the write goes to that child. In every
  other case (state not Online, text of 100 characters or more, text missing) the request
  leaves the whole state, the log of actions included, as it was.
\<close>

theorem command_written_iff:
  "snd (post_command command (run evs (constructor t0))) =
     (case (minecraftProcess (run evs (constructor t0)), command) of
        (Some p, Some c) \<Rightarrow>
          if serverStatus (run evs (constructor t0)) = Online \<and> c \<noteq> [] \<and> length c < 100
          then (run evs (constructor t0))
                 \<lparr> actions := actions (run evs (constructor t0)) @ [StdinWrite p (c @ ''\<newline>'')] \<rparr>
          else run evs (constructor t0)
      | _ \<Rightarrow> run evs (constructor t0))
   \<and> (serverStatus (run evs (constructor t0)) = Online
        \<longrightarrow> minecraftProcess (run evs (constructor t0)) \<noteq> None)"
  using reachable_online_ok [of evs t0]
  by (auto simp: online_ok_def post_command_def executeCommand_def truthy_def
           split: option.splits)

theorem command_written_iff_witness:
  "snd (post_command (Some ''say hi'') (run [HttpStart, ProcStdout ready_line] (constructor 0))) =
     (run [HttpStart, ProcStdout ready_line] (constructor 0))
       \<lparr> actions := [Spawn 0, StdinWrite 0 ''say hi\<newline>''] \<rparr>
   \<and> serverStatus (run [HttpStart, ProcStdout ready_line] (constructor 0)) = Online
   \<and> minecraftProcess (run [HttpStart, ProcStdout ready_line] (constructor 0)) = Some 0
   \<and> snd (post_command (Some ''say hi'') (run [HttpStart] (constructor 0))) =
       run [HttpStart] (constructor 0)
   \<and> snd (post_command (Some (replicate 100 (CHR ''a'')))
            (run [HttpStart, ProcStdout ready_line] (constructor 0))) =
       run [HttpStart, ProcStdout ready_line] (constructor 0)
   \<and> snd (post_command None (run [HttpStart, ProcStdout ready_line] (constructor 0))) =
       run [HttpStart, ProcStdout ready_line] (constructor 0)"
proof -
  let ?on = "run [HttpStart, ProcStdout ready_line] (constructor 0)"
  have on: "serverStatus ?on = Online" "minecraftProcess ?on = Some 0" "actions ?on = [Spawn 0]"
    by (simp_all add: constructor_def handler_defs ready_line_matches)
  have st: "serverStatus (run [HttpStart] (constructor 0)) = Starting"
    "minecraftProcess (run [HttpStart] (constructor 0)) = Some 0"
    by (simp_all add: constructor_def handler_defs)
  show ?thesis
    using command_written_iff [of "Some ''say hi''" "[HttpStart, ProcStdout ready_line]" 0]
      command_written_iff [of "Some ''say hi''" "[HttpStart]" 0]
      command_written_iff [of "Some (replicate 100 (CHR ''a''))" "[HttpStart, ProcStdout ready_line]" 0]
      command_written_iff [of None "[HttpStart, ProcStdout ready_line]" 0]
      on st
    by simp
qed

subsection \<open>The start route\<close>

text \<open>
  Claim C8: a start request while the state is Starting or Online is answered with
  \<open>success: false\<close>, and the state, the log of actions included, is left as it was:
  nothing is spawned and nothing changes.
\<close>

theorem start_rejected_while_running:
  "serverStatus s = Starting \<or> serverStatus s = Online \<Longrightarrow>
     post_start s =
       (\<lparr> success = False, message = ''Server is already starting or running'',
          reply_status = None \<rparr>, s)"
  by (simp add: post_start_def)

theorem start_rejected_while_running_witness:
  "post_start (run [HttpStart] (constructor 0)) =
       (\<lparr> success = False, message = ''Server is already starting or running'',
          reply_status = None \<rparr>, run [HttpStart] (constructor 0))
   \<and> post_start (run [HttpStart, ProcStdout ready_line] (constructor 0)) =
       (\<lparr> success = False, message = ''Server is already starting or running'',
          reply_status = None \<rparr>, run [HttpStart, ProcStdout ready_line] (constructor 0))"
proof -
  have a: "serverStatus (run [HttpStart] (constructor 0)) = Starting"
    by (simp add: constructor_def handler_defs)
  have b: "serverStatus (run [HttpStart, ProcStdout ready_line] (constructor 0)) = Online"
    by (simp add: constructor_def handler_defs ready_line_matches)
  show ?thesis
    using start_rejected_while_running [of "run [HttpStart] (constructor 0)"]
      start_rejected_while_running [of "run [HttpStart, ProcStdout ready_line] (constructor 0)"]
      a b by simp
qed

text \<open>
  Claim C10: a start request while the process handle is set and the state is neither
  Starting nor Online (Stopping, or Offline after an \<open>error\<close> event) is answered with
  \<open>success: true\<close> and status \<open>starting\<close>, while \<open>startMinecraftServer\<close> returns at
  its first test: nothing is spawned and no field changes.
\<close>

theorem start_while_handle_set_claims_success:
  "minecraftProcess s \<noteq> None \<Longrightarrow> serverStatus s \<noteq> Starting \<Longrightarrow> serverStatus s \<noteq> Online \<Longrightarrow>
     post_start s =
       (\<lparr> success = True, message = ''Server is starting with memory optimization...'',
          reply_status = Some ''starting'' \<rparr>, s)"
  by (simp add: post_start_def startMinecraftServer_def)

theorem start_while_handle_set_claims_success_witness:
  "serverStatus (run [HttpStart, ProcStdout ready_line, HttpStop] (constructor 0)) = Stopping
   \<and> post_start (run [HttpStart, ProcStdout ready_line, HttpStop] (constructor 0)) =
       (\<lparr> success = True, message = ''Server is starting with memory optimization...'',
          reply_status = Some ''starting'' \<rparr>,
        run [HttpStart, ProcStdout ready_line, HttpStop] (constructor 0))"
proof -
  let ?s = "run [HttpStart, ProcStdout ready_line, HttpStop] (constructor 0)"
  have a: "serverStatus ?s = Stopping" and b: "minecraftProcess ?s \<noteq> None"
    by (simp_all add: constructor_def handler_defs ready_line_matches)
  show ?thesis
    using start_while_handle_set_claims_success [of ?s] a b by simp
qed

subsection \<open>Between stop and exit\<close>

lemma step_keeps_ready:
  "minecraftProcess s = Some p \<Longrightarrow> serverReady s \<Longrightarrow> \<not> is_exit e \<Longrightarrow>
     minecraftProcess (step e s) = Some p \<and> serverReady (step e s)"
proof (cases e)
  case (Elapse d)
  assume "minecraftProcess s = Some p" "serverReady s"
  then show ?thesis using Elapse elapse_alive [of s p d] by simp
qed (auto simp: handler_defs Let_def split: option.splits)

lemma run_keeps_ready:
  "minecraftProcess s = Some p \<Longrightarrow> serverReady s \<Longrightarrow> \<forall>e\<in>set evs. \<not> is_exit e \<Longrightarrow>
     minecraftProcess (run evs s) = Some p \<and> serverReady (run evs s)"
proof (induction evs arbitrary: s)
  case Nil
  then show ?case by simp
next
  case (Cons e evs)
  have "minecraftProcess (step e s) = Some p \<and> serverReady (step e s)"
    using Cons.prems step_keeps_ready [of s p e] by simp
  then show ?case using Cons.IH [of "step e s"] Cons.prems by simp
qed

lemma step_keeps_stopping:
  "minecraftProcess s = Some p \<Longrightarrow> serverStatus s = Stopping \<Longrightarrow>
     \<not> is_exit e \<Longrightarrow> \<not> is_ready_output e \<Longrightarrow>
     minecraftProcess (step e s) = Some p \<and> serverStatus (step e s) = Stopping"
proof (cases e)
  case (Elapse d)
  assume "minecraftProcess s = Some p" "serverStatus s = Stopping"
  then show ?thesis using Elapse elapse_alive [of s p d] by simp
qed (auto simp: handler_defs Let_def split: option.splits)

lemma run_keeps_stopping:
  "minecraftProcess s = Some p \<Longrightarrow> serverStatus s = Stopping \<Longrightarrow>
     \<forall>e\<in>set evs. \<not> is_exit e \<and> \<not> is_ready_output e \<Longrightarrow>
     minecraftProcess (run evs s) = Some p \<and> serverStatus (run evs s) = Stopping"
proof (induction evs arbitrary: s)
  case Nil
  then show ?case by simp
next
  case (Cons e evs)
  have "minecraftProcess (step e s) = Some p \<and> serverStatus (step e s) = Stopping"
    using Cons.prems step_keeps_stopping [of s p e] by simp
  then show ?case using Cons.IH [of "step e s"] Cons.prems by simp
qed

text \<open>
  Claim C9: \<open>stopMinecraftServer\<close>, called while the process exists and \<open>serverReady\<close>
  is true, sets the state to Stopping and leaves \<open>serverReady\<close> true, so the status
  route reports \<open>stopping\<close> together with \<open>ready: true\<close>. Until the child's \<open>close\<close> or
  \<open>error\<close> event, whatever else happens, \<open>ready\<close> stays true (and the status stays
  \<open>stopping\<close>, unless output with the readiness marker arrives); the \<open>close\<close> and the
  \<open>error\<close> event clear it.
\<close>

theorem stop_leaves_serverReady:
  assumes "minecraftProcess s = Some p" and "serverReady s"
  shows "serverStatus (stopMinecraftServer s) = Stopping
    \<and> serverReady (stopMinecraftServer s)
    \<and> status (get_status (stopMinecraftServer s)) = ''stopping''
    \<and> ready (get_status (stopMinecraftServer s))
    \<and> (\<forall>evs. (\<forall>e\<in>set evs. \<not> is_exit e) \<longrightarrow>
          ready (get_status (run evs (stopMinecraftServer s))))
    \<and> (\<forall>evs. (\<forall>e\<in>set evs. \<not> is_exit e \<and> \<not> is_ready_output e) \<longrightarrow>
          status (get_status (run evs (stopMinecraftServer s))) = ''stopping'')
    \<and> (\<forall>evs code. (\<forall>e\<in>set evs. \<not> is_exit e) \<longrightarrow>
          \<not> ready (get_status (run (evs @ [ProcClose code]) (stopMinecraftServer s)))
          \<and> \<not> ready (get_status (run (evs @ [ProcError]) (stopMinecraftServer s))))"
proof -
  let ?s = "stopMinecraftServer s"
  have st: "minecraftProcess ?s = Some p" "serverStatus ?s = Stopping" "serverReady ?s"
    using stop_alive [OF assms(1)] assms(2) by simp_all
  have a: "ready (get_status (run evs ?s))" if "\<forall>e\<in>set evs. \<not> is_exit e" for evs
    using run_keeps_ready [OF st(1) st(3) that] by (simp add: get_status_def)
  have b: "status (get_status (run evs ?s)) = ''stopping''"
    if "\<forall>e\<in>set evs. \<not> is_exit e \<and> \<not> is_ready_output e" for evs
    using run_keeps_stopping [OF st(1) st(2) that] by (simp add: get_status_def)
  have c: "\<not> ready (get_status (run (evs @ [ProcClose code]) ?s))
           \<and> \<not> ready (get_status (run (evs @ [ProcError]) ?s))"
    if "\<forall>e\<in>set evs. \<not> is_exit e" for evs code
    using run_keeps_ready [OF st(1) st(3) that]
    by (simp add: run_snoc get_status_def handler_defs Let_def split: option.splits)
  show ?thesis
    using st a b c by (simp add: get_status_def)
qed

theorem stop_leaves_serverReady_witness:
  "status (get_status (stopMinecraftServer (run [HttpStart, ProcStdout ready_line] (constructor 0))))
     = ''stopping''
   \<and> ready (get_status (stopMinecraftServer (run [HttpStart, ProcStdout ready_line] (constructor 0))))
   \<and> ready (get_status (run [HttpStart, Elapse 20000]
        (stopMinecraftServer (run [HttpStart, ProcStdout ready_line] (constructor 0)))))
   \<and> status (get_status (run [HttpStart, Elapse 20000]
        (stopMinecraftServer (run [HttpStart, ProcStdout ready_line] (constructor 0))))) = ''stopping''
   \<and> \<not> ready (get_status (run [HttpStart, Elapse 20000, ProcClose None]
        (stopMinecraftServer (run [HttpStart, ProcStdout ready_line] (constructor 0)))))"
proof -
  let ?on = "run [HttpStart, ProcStdout ready_line] (constructor 0)"
  have on: "minecraftProcess ?on = Some 0" "serverReady ?on"
    by (simp_all add: constructor_def handler_defs ready_line_matches)
  note t = stop_leaves_serverReady [OF on]
  have q: "\<forall>e\<in>set [HttpStart, Elapse 20000]. \<not> is_exit e \<and> \<not> is_ready_output e"
    by simp
  from t have "ready (get_status (run [HttpStart, Elapse 20000] (stopMinecraftServer ?on)))"
    using q by blast
  moreover from t have
    "status (get_status (run [HttpStart, Elapse 20000] (stopMinecraftServer ?on))) = ''stopping''"
    using q by blast
  moreover from t have
    "\<not> ready (get_status (run ([HttpStart, Elapse 20000] @ [ProcClose None]) (stopMinecraftServer ?on)))"
    using q by blast
  ultimately show ?thesis using t by simp
qed

end
